theory Spec2Isabelle
  imports Main "HOL-Library.Word" "HOL-Library.Sublist" "HOL-Library.List_Lexorder"
begin

section \<open>Win32 data as the runner sees it\<close>

text \<open>
  The runner is Windows code: \<open>wchar_t\<close> is a 16-bit code unit, \<open>UINT\<close> and \<open>DWORD\<close> are
  32-bit. A wide C string is the list of its code units before the terminating NUL.
  A window or kernel handle is a non-null value; \<open>nullptr\<close> is \<open>None\<close> of the option type.
\<close>

type_synonym wchar_t = "16 word"
type_synonym wstring = "wchar_t list"
type_synonym UINT = "32 word"
type_synonym DWORD = "32 word"
type_synonym HWND = nat
type_synonym HANDLE = nat
type_synonym WPARAM = nat
type_synonym LPARAM = int
type_synonym LRESULT = int

text \<open>The wide literal \<open>L"..."\<close> of an ASCII text.\<close>

definition L :: "string \<Rightarrow> wstring" where
  "L s = map (\<lambda>c. of_nat (of_char c)) s"

definition kSingleInstanceMutexName :: wstring where
  "kSingleInstanceMutexName = L ''NAI_Launcher_SingleInstance_Mutex''"

definition WM_USER :: UINT where "WM_USER = 0x0400"
definition WM_FONTCHANGE :: UINT where "WM_FONTCHANGE = 0x001D"
definition kWakeUpMessage :: UINT where "kWakeUpMessage = WM_USER + 1"

definition SW_RESTORE :: nat where "SW_RESTORE = 9"
definition ERROR_ALREADY_EXISTS :: DWORD where "ERROR_ALREADY_EXISTS = 183"
definition EXIT_SUCCESS :: int where "EXIT_SUCCESS = 0"
definition EXIT_FAILURE :: int where "EXIT_FAILURE = 1"

text \<open>
  A top-level window of the desktop session: its handle, its full title as the owning
  process set it, and whether it is minimised.
\<close>

record window =
  hwnd :: HWND
  title :: wstring
  iconic :: bool

section \<open>main.cpp: the window locator\<close>

text \<open>
  \<open>wcsstr(haystack, needle)\<close> returns a pointer to the first occurrence of the needle, or
  null. The pointer is modelled by the suffix of the haystack that starts there.
\<close>

fun wcsstr :: "wstring \<Rightarrow> wstring \<Rightarrow> wstring option" where
  "wcsstr [] needle = (if needle = [] then Some [] else None)"
| "wcsstr (c # cs) needle =
     (if prefix needle (c # cs) then Some (c # cs) else wcsstr cs needle)"

text \<open>
  \<open>GetWindowText(hwnd, buf, nMaxCount)\<close> copies at most \<open>nMaxCount - 1\<close> code units of the
  title into the buffer and terminates it.
\<close>

definition GetWindowText :: "window \<Rightarrow> nat \<Rightarrow> wstring" where
  "GetWindowText w nMaxCount = take (nMaxCount - 1) (title w)"

text \<open>
  The loop \<open>while ((hwnd = FindWindowEx(nullptr, hwnd, nullptr, nullptr)) != nullptr)\<close> walks the
  top-level windows in the order the system enumerates them; the list argument is that
  sequence, and the end of the list is the null handle that ends the loop. The title
  fragment is the literal of the source in \<open>FindExistingFlutterWindow\<close>; the loop itself is
  stated for any fragment.
\<close>

fun find_window_loop :: "wstring \<Rightarrow> window list \<Rightarrow> HWND option" where
  "find_window_loop fragment [] = None"
| "find_window_loop fragment (w # ws) =
     (let title = GetWindowText w 256 in
      if wcsstr title fragment \<noteq> None then Some (hwnd w)
      else find_window_loop fragment ws)"

definition FindExistingFlutterWindow :: "window list \<Rightarrow> HWND option" where
  "FindExistingFlutterWindow desktop = find_window_loop (L ''NAI Launcher'') desktop"

text \<open>
  The window locator as the specification words it: the first window whose title
  contains the fragment.
\<close>

definition FindByTitleContains :: "wstring \<Rightarrow> window list \<Rightarrow> HWND option" where
  "FindByTitleContains fragment desktop =
     map_option hwnd (find (\<lambda>w. sublist fragment (title w)) desktop)"

section \<open>main.cpp: the wake notifier\<close>

text \<open>
  The calls a run makes that act on the system, in order. \<open>PostMessage\<close> is the queueing
  call of the same interface; the runner never makes it, the specification names it.
\<close>

datatype win32_call =
    AttachConsole
  | CreateAndAttachConsole
  | CreateMutex bool wstring
  | ShowWindow HWND nat
  | SetForegroundWindow HWND
  | SendMessage HWND UINT WPARAM LPARAM
  | PostMessage HWND UINT WPARAM LPARAM
  | CloseHandle HANDLE
  | CoInitializeEx
  | Window_Create wstring "int \<times> int" "nat \<times> nat"
  | SetQuitOnClose bool
  | GetMessage
  | TranslateMessage UINT
  | DispatchMessage UINT
  | CoUninitialize

text \<open>\<open>IsIconic\<close> answers for a handle of the desktop; an unknown handle is not iconic.\<close>

definition IsIconic :: "window list \<Rightarrow> HWND \<Rightarrow> bool" where
  "IsIconic desktop h =
     (case find (\<lambda>w. hwnd w = h) desktop of None \<Rightarrow> False | Some w \<Rightarrow> iconic w)"

definition WakeUpExistingWindow :: "window list \<Rightarrow> win32_call list" where
  "WakeUpExistingWindow desktop =
     (case FindExistingFlutterWindow desktop of
        None \<Rightarrow> []
      | Some existing_window \<Rightarrow>
          (if IsIconic desktop existing_window
           then [ShowWindow existing_window SW_RESTORE] else [])
          @ [SetForegroundWindow existing_window,
             SendMessage existing_window kWakeUpMessage 0 0])"

text \<open>
  The wake notifier as the specification words it: restore if minimised, raise, then post
  the signal to the window's queue.
\<close>

definition Wake :: "window list \<Rightarrow> HWND \<Rightarrow> win32_call list" where
  "Wake desktop h =
     (if IsIconic desktop h then [ShowWindow h SW_RESTORE] else [])
     @ [SetForegroundWindow h, PostMessage h kWakeUpMessage 0 0]"

section \<open>main.cpp: program entry\<close>

text \<open>
  What the system answers to one run of \<open>wWinMain\<close>: the result of \<open>AttachConsole\<close> and
  \<open>IsDebuggerPresent\<close>, the handle \<open>CreateMutex\<close> returns and the value \<open>GetLastError\<close>
  reads right after it, the top-level windows of the session, the result of
  \<open>window.Create\<close>, and the successive results of \<open>GetMessage\<close> (the \<open>BOOL\<close> it returns and
  the code of the message it retrieved).
\<close>

record startup_env =
  AttachConsole_result :: bool
  IsDebuggerPresent_result :: bool
  CreateMutex_result :: "HANDLE option"
  GetLastError_result :: DWORD
  top_level_windows :: "window list"
  Create_result :: bool
  GetMessage_results :: "(int \<times> UINT) list"

text \<open>
  \<open>while (::GetMessage(&msg, nullptr, 0, 0)) { TranslateMessage; DispatchMessage }\<close>. The loop
  ends when \<open>GetMessage\<close> returns 0. When the answers run out before that, \<open>GetMessage\<close>
  never returns again and neither does the program: the value is \<open>None\<close>.
\<close>

fun message_loop :: "(int \<times> UINT) list \<Rightarrow> win32_call list option" where
  "message_loop [] = None"
| "message_loop ((r, msg) # rest) =
     (if r \<noteq> 0
      then map_option (\<lambda>calls. [GetMessage, TranslateMessage msg, DispatchMessage msg] @ calls)
             (message_loop rest)
      else Some [GetMessage])"

text \<open>The guarded \<open>if (single_instance_mutex != nullptr) CloseHandle(single_instance_mutex)\<close>.\<close>

definition close_mutex :: "HANDLE option \<Rightarrow> win32_call list" where
  "close_mutex single_instance_mutex =
     (case single_instance_mutex of None \<Rightarrow> [] | Some h \<Rightarrow> [CloseHandle h])"

text \<open>
  \<open>wWinMain\<close> returns its exit code; the model pairs it with the calls made, in order.
  Building the \<open>DartProject\<close> and handing it the command line arguments makes none of the
  calls recorded here.
\<close>

definition wWinMain :: "startup_env \<Rightarrow> (int \<times> win32_call list) option" where
  "wWinMain env =
     (let console =
            AttachConsole #
            (if \<not> AttachConsole_result env \<and> IsDebuggerPresent_result env
             then [CreateAndAttachConsole] else []);
          single_instance_mutex = CreateMutex_result env;
          acquire = [CreateMutex True kSingleInstanceMutexName];
          is_another_instance_running = (GetLastError_result env = ERROR_ALREADY_EXISTS)
      in
      if is_another_instance_running then
        Some (EXIT_SUCCESS,
              console @ acquire @ WakeUpExistingWindow (top_level_windows env)
              @ close_mutex single_instance_mutex)
      else if \<not> Create_result env then
        Some (EXIT_FAILURE,
              console @ acquire
              @ [CoInitializeEx, Window_Create (L ''NAI Launcher'') (10, 10) (1280, 720)])
      else
        map_option
          (\<lambda>loop. (EXIT_SUCCESS,
                    console @ acquire
                    @ [CoInitializeEx, Window_Create (L ''NAI Launcher'') (10, 10) (1280, 720),
                       SetQuitOnClose True]
                    @ loop @ close_mutex single_instance_mutex @ [CoUninitialize]))
          (message_loop (GetMessage_results env)))"

text \<open>
  What it means for a run to abort startup: it returns a non-zero exit code, having created no
  window and entered no message loop.
\<close>

fun is_Window_Create :: "win32_call \<Rightarrow> bool" where
  "is_Window_Create (Window_Create t origin sz) = True"
| "is_Window_Create c = False"

fun is_CloseHandle :: "win32_call \<Rightarrow> bool" where
  "is_CloseHandle (CloseHandle h) = True"
| "is_CloseHandle c = False"

definition aborts_startup :: "(int \<times> win32_call list) option \<Rightarrow> bool" where
  "aborts_startup run =
     (case run of
        None \<Rightarrow> False
      | Some (code, calls) \<Rightarrow>
          code \<noteq> 0 \<and> \<not> list_ex is_Window_Create calls \<and> GetMessage \<notin> set calls)"

section \<open>flutter_window.cpp: the font enumerator\<close>

text \<open>
  \<open>LOGFONTW\<close>, with the one field the callback reads. \<open>lfFaceName[0]\<close> of an empty name is
  the terminating NUL.
\<close>

record LOGFONTW =
  lfFaceName :: wstring

definition first_unit :: "wstring \<Rightarrow> wchar_t" where
  "first_unit s = (case s of [] \<Rightarrow> 0 | c # cs \<Rightarrow> c)"

text \<open>
  \<open>g_font_names\<close> is a \<open>std::set<std::wstring>\<close>: its elements are kept in ascending order
  without duplicates, so it is the sorted list of its elements and \<open>insert\<close> is
  \<open>insort_insert\<close>. The callback returns 1 to continue the enumeration.
\<close>

definition EnumFontFamExProc :: "LOGFONTW \<Rightarrow> wstring list \<Rightarrow> int \<times> wstring list" where
  "EnumFontFamExProc lpelfe g_font_names =
     (if first_unit (lfFaceName lpelfe) \<noteq> 0x40
      then (1, insort_insert (lfFaceName lpelfe) g_font_names)
      else (1, g_font_names))"

text \<open>
  \<open>EnumFontFamiliesExW\<close> calls the callback on each face the system reports, until the
  callback returns 0 or the faces are exhausted.
\<close>

fun EnumFontFamiliesExW ::
  "(LOGFONTW \<Rightarrow> 's \<Rightarrow> int \<times> 's) \<Rightarrow> LOGFONTW list \<Rightarrow> 's \<Rightarrow> 's" where
  "EnumFontFamiliesExW proc [] st = st"
| "EnumFontFamiliesExW proc (f # fs) st =
     (case proc f st of
        (r, st') \<Rightarrow> if r = 0 then st' else EnumFontFamiliesExW proc fs st')"

text \<open>
  \<open>WideCharToMultiByte(CP_UTF8, ...)\<close> is a parameter: \<open>None\<close> when the size it reports is not
  positive, otherwise the bytes it writes before the terminator. The loop appends each
  converted name to \<open>result\<close>.
\<close>

fun convert_loop ::
  "(wstring \<Rightarrow> string option) \<Rightarrow> wstring list \<Rightarrow> string list \<Rightarrow> string list" where
  "convert_loop WideCharToMultiByte [] result = result"
| "convert_loop WideCharToMultiByte (name # names) result =
     (case WideCharToMultiByte name of
        None \<Rightarrow> convert_loop WideCharToMultiByte names result
      | Some utf8_name \<Rightarrow> convert_loop WideCharToMultiByte names (result @ [utf8_name]))"

text \<open>
  \<open>GetSystemFonts\<close> takes the global \<open>g_font_names\<close> as it finds it and the faces the
  system reports to this enumeration, and returns the list together with the global as it
  leaves it. \<open>result\<close> starts empty.
\<close>

definition GetSystemFonts ::
  "(wstring \<Rightarrow> string option) \<Rightarrow> LOGFONTW list \<Rightarrow> wstring list \<Rightarrow> string list \<times> wstring list"
  where
  "GetSystemFonts WideCharToMultiByte faces g_font_names =
     (let cleared = [];
          enumerated = EnumFontFamiliesExW EnumFontFamExProc faces cleared
      in (convert_loop WideCharToMultiByte enumerated [], enumerated))"

text \<open>
  A conversion to evaluate the definitions with: UTF-8 on names of 7-bit code units, one byte
  per unit; any other name is reported as failing.
\<close>

definition utf8_of_ascii :: "wstring \<Rightarrow> string option" where
  "utf8_of_ascii name =
     (if list_all (\<lambda>c. c < 0x80) name then Some (map (\<lambda>c. char_of (unat c)) name) else None)"

definition begins_with_marker :: "string \<Rightarrow> bool" where
  "begins_with_marker s = (case s of [] \<Rightarrow> False | c # cs \<Rightarrow> c = CHR ''@'')"

text \<open>
  \<open>WideCharToMultiByte(CP_UTF8, 0, name, -1, ...)\<close> as Windows documents it: the name is read
  as UTF-16 and written as UTF-8. A code unit below \<open>0x80\<close> gives one byte, one below
  \<open>0x800\<close> two, a high surrogate followed by a low surrogate the four bytes of their code
  point, any other code unit three; a surrogate that is not part of such a pair is written
  as the replacement character \<open>U+FFFD\<close>, that is \<open>EF BF BD\<close>. The size reported counts the
  terminator, so it is positive and the conversion never fails.
\<close>

definition is_high_surrogate :: "wchar_t \<Rightarrow> bool" where
  "is_high_surrogate u \<longleftrightarrow> 0xD800 \<le> unat u \<and> unat u < 0xDC00"

definition is_low_surrogate :: "wchar_t \<Rightarrow> bool" where
  "is_low_surrogate u \<longleftrightarrow> 0xDC00 \<le> unat u \<and> unat u < 0xE000"

definition utf8_single :: "wchar_t \<Rightarrow> nat list" where
  "utf8_single u =
     (let n = unat u in
      if n < 0x80 then [n]
      else if n < 0x800 then [0xC0 + n div 64, 0x80 + n mod 64]
      else if is_high_surrogate u \<or> is_low_surrogate u then [0xEF, 0xBF, 0xBD]
      else [0xE0 + n div 4096, 0x80 + n div 64 mod 64, 0x80 + n mod 64])"

definition utf8_pair :: "wchar_t \<Rightarrow> wchar_t \<Rightarrow> nat list" where
  "utf8_pair hi lo =
     (let cp = 0x10000 + (unat hi - 0xD800) * 0x400 + (unat lo - 0xDC00) in
      [0xF0 + cp div 262144, 0x80 + cp div 4096 mod 64, 0x80 + cp div 64 mod 64,
       0x80 + cp mod 64])"

fun utf8_units :: "wstring \<Rightarrow> nat list" where
  "utf8_units [] = []"
| "utf8_units [u] = utf8_single u"
| "utf8_units (u # v # rest) =
     (if is_high_surrogate u \<and> is_low_surrogate v then utf8_pair u v @ utf8_units rest
      else utf8_single u @ utf8_units (v # rest))"

definition utf8_of_wide :: "wstring \<Rightarrow> string option" where
  "utf8_of_wide name = Some (map char_of (utf8_units name))"

text \<open>A name is well-formed UTF-16 when every surrogate in it is part of a pair.\<close>

fun well_formed_utf16 :: "wstring \<Rightarrow> bool" where
  "well_formed_utf16 [] = True"
| "well_formed_utf16 [u] = (\<not> is_high_surrogate u \<and> \<not> is_low_surrogate u)"
| "well_formed_utf16 (u # v # rest) =
     (if is_high_surrogate u then is_low_surrogate v \<and> well_formed_utf16 rest
      else \<not> is_low_surrogate u \<and> well_formed_utf16 (v # rest))"

text \<open>
  Reading UTF-8 bytes back as UTF-16, by the length the leading byte announces. It serves
  to show that the conversion loses nothing on well-formed names.
\<close>

fun wide_of_utf8 :: "nat list \<Rightarrow> wstring" where
  "wide_of_utf8 [] = []"
| "wide_of_utf8 (b # bs) =
     (if b < 0x80 then of_nat b # wide_of_utf8 bs
      else if b < 0xE0 then
        (case bs of
           b2 # r \<Rightarrow> of_nat ((b - 0xC0) * 64 + (b2 - 0x80)) # wide_of_utf8 r
         | [] \<Rightarrow> [])
      else if b < 0xF0 then
        (case bs of
           b2 # b3 # r \<Rightarrow>
             of_nat ((b - 0xE0) * 4096 + (b2 - 0x80) * 64 + (b3 - 0x80)) # wide_of_utf8 r
         | _ \<Rightarrow> [])
      else
        (case bs of
           b2 # b3 # b4 # r \<Rightarrow>
             (let cp = (b - 0xF0) * 262144 + (b2 - 0x80) * 4096 + (b3 - 0x80) * 64 + (b4 - 0x80)
                       - 0x10000
              in of_nat (0xD800 + cp div 0x400) # of_nat (0xDC00 + cp mod 0x400)
                 # wide_of_utf8 r)
         | _ \<Rightarrow> []))"

section \<open>flutter_window.cpp: the capability bridge\<close>

datatype EncodableValue = EncodableString string | EncodableList "EncodableValue list"

text \<open>The three outcomes a \<open>MethodResult\<close> can be completed with.\<close>

datatype method_outcome =
    Success EncodableValue
  | Error string string
  | NotImplemented

text \<open>
  The handler installed on \<open>com.nailauncher/system_fonts\<close>: the outcome it completes the call
  with, and \<open>g_font_names\<close> afterwards.
\<close>

definition system_fonts_handler ::
  "(wstring \<Rightarrow> string option) \<Rightarrow> LOGFONTW list \<Rightarrow> string \<Rightarrow> wstring list
     \<Rightarrow> method_outcome \<times> wstring list" where
  "system_fonts_handler WideCharToMultiByte faces method_name g_font_names =
     (if method_name = ''getSystemFonts'' then
        (case GetSystemFonts WideCharToMultiByte faces g_font_names of
           (fonts, g') \<Rightarrow> (Success (EncodableList (map EncodableString fonts)), g'))
      else (NotImplemented, g_font_names))"

text \<open>
  \<open>FlutterWindow::MessageHandler\<close>. The controller, when present, offers
  \<open>HandleTopLevelWindowProc\<close>; \<open>Win32Window::MessageHandler\<close> of the base class is a
  parameter. The result is the actions taken on the engine and the \<open>LRESULT\<close> returned;
  dereferencing an absent controller in the switch is an error.
\<close>

record FlutterViewController =
  HandleTopLevelWindowProc :: "HWND \<Rightarrow> UINT \<Rightarrow> WPARAM \<Rightarrow> LPARAM \<Rightarrow> LRESULT option"

datatype bridge_action =
    ReloadSystemFonts
  | InvokeMethod string string

datatype fault = NullDereference

definition MessageHandler ::
  "(HWND \<Rightarrow> UINT \<Rightarrow> WPARAM \<Rightarrow> LPARAM \<Rightarrow> LRESULT) \<Rightarrow> FlutterViewController option
     \<Rightarrow> HWND \<Rightarrow> UINT \<Rightarrow> WPARAM \<Rightarrow> LPARAM \<Rightarrow> fault + bridge_action list \<times> LRESULT" where
  "MessageHandler Win32Window_MessageHandler flutter_controller h message wparam lparam =
     (case (case flutter_controller of
              None \<Rightarrow> None
            | Some c \<Rightarrow> HandleTopLevelWindowProc c h message wparam lparam) of
        Some result \<Rightarrow> Inr ([], result)
      | None \<Rightarrow>
          if message = WM_FONTCHANGE then
            (case flutter_controller of
               None \<Rightarrow> Inl NullDereference
             | Some c \<Rightarrow>
                 Inr ([ReloadSystemFonts],
                      Win32Window_MessageHandler h message wparam lparam))
          else if message = kWakeUpMessage then
            (case flutter_controller of
               None \<Rightarrow> Inl NullDereference
             | Some c \<Rightarrow>
                 Inr ([InvokeMethod ''com.nailauncher/window_control'' ''wakeUp''],
                      Win32Window_MessageHandler h message wparam lparam))
          else Inr ([], Win32Window_MessageHandler h message wparam lparam))"

text \<open>The action the bridge's switch takes for a reserved code.\<close>

definition switch_action :: "UINT \<Rightarrow> bridge_action list" where
  "switch_action message =
     (if message = WM_FONTCHANGE then [ReloadSystemFonts]
      else if message = kWakeUpMessage
      then [InvokeMethod ''com.nailauncher/window_control'' ''wakeUp'']
      else [])"

section \<open>The window locator: results\<close>

lemma wcsstr_None: "wcsstr hay needle = None \<longleftrightarrow> \<not> sublist needle hay"
  by (induction hay) (auto simp: sublist_Cons_right)

lemma find_window_loop_find:
  "find_window_loop fragment desktop =
     map_option hwnd (find (\<lambda>w. sublist fragment (take 255 (title w))) desktop)"
  by (induction desktop) (simp_all add: GetWindowText_def wcsstr_None)

lemma sublist_of_buffer: "sublist fragment (take n t) \<Longrightarrow> sublist fragment t"
  using sublist_take sublist_order.order_trans by blast

lemma find_window_loop_Some:
  "find_window_loop fragment desktop = Some h \<Longrightarrow>
   \<exists>w\<in>set desktop. hwnd w = h \<and> sublist fragment (take 255 (title w))"
  by (induction desktop) (auto simp: GetWindowText_def wcsstr_None Let_def split: if_splits)

lemma find_window_loop_buffer_only:
  "find_window_loop fragment (map (\<lambda>w. w\<lparr>title := take 255 (title w)\<rparr>) desktop) =
   find_window_loop fragment desktop"
  by (induction desktop) (simp_all add: GetWindowText_def)

text \<open>
  C6, as stated: the locator returns the first window whose title contains the fragment.
  It fails for a title longer than the buffer: a window whose title is 250 times \<open>x\<close>
  followed by \<open>NAI Launcher\<close> contains the fragment, and the locator returns none, because
  only 255 code units of the title reach \<open>wcsstr\<close>.
\<close>

theorem locator_counterexample:
  "FindExistingFlutterWindow
     [\<lparr>hwnd = 7, title = replicate 250 0x78 @ L ''NAI Launcher'', iconic = False\<rparr>] = None \<and>
   FindByTitleContains (L ''NAI Launcher'')
     [\<lparr>hwnd = 7, title = replicate 250 0x78 @ L ''NAI Launcher'', iconic = False\<rparr>] = Some 7"
proof
  show "FindExistingFlutterWindow
     [\<lparr>hwnd = 7, title = replicate 250 0x78 @ L ''NAI Launcher'', iconic = False\<rparr>] = None"
    by code_simp
  show "FindByTitleContains (L ''NAI Launcher'')
     [\<lparr>hwnd = 7, title = replicate 250 0x78 @ L ''NAI Launcher'', iconic = False\<rparr>] = Some 7"
    by (simp add: FindByTitleContains_def)
qed

text \<open>
  C6, amended: for every sequence of top-level windows and every fragment, the locator
  returns the first window, in enumeration order, whose title cut to its first 255 code
  units contains the fragment, and none when there is no such window; in particular it
  returns none when no title contains the fragment and when the sequence is empty.
  \<open>FindExistingFlutterWindow\<close> is the instance for the fragment \<open>NAI Launcher\<close>.
\<close>

theorem locator_first_match_in_buffer:
  "find_window_loop fragment desktop =
     map_option hwnd (find (\<lambda>w. sublist fragment (take 255 (title w))) desktop) \<and>
   FindExistingFlutterWindow desktop =
     map_option hwnd (find (\<lambda>w. sublist (L ''NAI Launcher'') (take 255 (title w))) desktop) \<and>
   ((\<forall>w\<in>set desktop. \<not> sublist fragment (title w)) \<longrightarrow>
      find_window_loop fragment desktop = None)"
proof -
  have "find (\<lambda>w. sublist fragment (take 255 (title w))) desktop = None"
    if "\<forall>w\<in>set desktop. \<not> sublist fragment (title w)"
    using that sublist_of_buffer by (auto simp: find_None_iff)
  then show ?thesis
    by (simp add: FindExistingFlutterWindow_def find_window_loop_find)
qed

theorem locator_first_match_in_buffer_witness:
  "FindExistingFlutterWindow
     [\<lparr>hwnd = 3, title = L ''Notepad'', iconic = False\<rparr>,
      \<lparr>hwnd = 7, title = L ''NAI Launcher - test'', iconic = False\<rparr>,
      \<lparr>hwnd = 9, title = L ''NAI Launcher'', iconic = True\<rparr>] = Some 7 \<and>
   find_window_loop (L ''NAI Launcher'')
     [\<lparr>hwnd = 3, title = L ''nai launcher'', iconic = False\<rparr>] = None \<and>
   FindExistingFlutterWindow [] = None"
proof -
  have a: "sublist (L ''NAI Launcher'') (take 255 (L ''NAI Launcher - test''))"
    by (simp add: L_def sublist_Cons_right)
  have b: "\<not> sublist (L ''NAI Launcher'') (take 255 (L ''Notepad''))"
    by (simp add: L_def sublist_Cons_right)
  have c: "\<forall>w\<in>set [\<lparr>hwnd = 3, title = L ''nai launcher'', iconic = False\<rparr>].
             \<not> sublist (L ''NAI Launcher'') (title w)"
    by (simp add: L_def sublist_Cons_right)
  have first: "FindExistingFlutterWindow
     [\<lparr>hwnd = 3, title = L ''Notepad'', iconic = False\<rparr>,
      \<lparr>hwnd = 7, title = L ''NAI Launcher - test'', iconic = False\<rparr>,
      \<lparr>hwnd = 9, title = L ''NAI Launcher'', iconic = True\<rparr>] = Some 7"
    using locator_first_match_in_buffer [of "L ''NAI Launcher''"
         "[\<lparr>hwnd = 3, title = L ''Notepad'', iconic = False\<rparr>,
           \<lparr>hwnd = 7, title = L ''NAI Launcher - test'', iconic = False\<rparr>,
           \<lparr>hwnd = 9, title = L ''NAI Launcher'', iconic = True\<rparr>]"] a b
    by simp
  have miss: "find_window_loop (L ''NAI Launcher'')
     [\<lparr>hwnd = 3, title = L ''nai launcher'', iconic = False\<rparr>] = None"
    using locator_first_match_in_buffer [of "L ''NAI Launcher''"
         "[\<lparr>hwnd = 3, title = L ''nai launcher'', iconic = False\<rparr>]"] c
    by blast
  have empty: "FindExistingFlutterWindow [] = None"
    using locator_first_match_in_buffer [of "L ''NAI Launcher''" "[]"] by simp
  from first miss empty show ?thesis by simp
qed

text \<open>
  C10: the locator compares the fragment only against the first 255 code units of each
  title (cutting every title to that length changes no result), and a window whose title
  has every occurrence of the fragment starting at offset 255 or later is never the one
  returned. Handles of distinct windows are distinct.
\<close>

theorem locator_ignores_beyond_255:
  assumes "distinct (map hwnd desktop)"
    and "w \<in> set desktop"
    and "\<forall>ps ss. title w = ps @ fragment @ ss \<longrightarrow> 255 \<le> length ps"
  shows "find_window_loop fragment desktop \<noteq> Some (hwnd w) \<and>
         find_window_loop fragment (map (\<lambda>w. w\<lparr>title := take 255 (title w)\<rparr>) desktop) =
           find_window_loop fragment desktop"
proof
  show "find_window_loop fragment desktop \<noteq> Some (hwnd w)"
  proof
    assume "find_window_loop fragment desktop = Some (hwnd w)"
    then obtain w' where w': "w' \<in> set desktop" "hwnd w' = hwnd w"
      "sublist fragment (take 255 (title w'))"
      using find_window_loop_Some by blast
    from assms(1,2) w'(1,2) have "w' = w"
      by (meson distinct_map inj_onD)
    with w'(3) obtain ps ss where split: "take 255 (title w) = ps @ fragment @ ss"
      unfolding sublist_def by blast
    have "title w = ps @ fragment @ (ss @ drop 255 (title w))"
      using split append_take_drop_id [of 255 "title w"] by (metis append.assoc)
    with assms(3) have long: "255 \<le> length ps" by blast
    have "length (ps @ fragment @ ss) \<le> 255"
      using split by (metis length_take min.cobounded2)
    then have "length ps + length fragment + length ss \<le> 255" by simp
    with long have "length fragment < 1" by linarith
    then have "fragment = []" by simp
    then have "title w = [] @ fragment @ title w" by simp
    with assms(3) have "255 \<le> length ([]::wstring)" by blast
    then show False by simp
  qed
  show "find_window_loop fragment (map (\<lambda>w. w\<lparr>title := take 255 (title w)\<rparr>) desktop) =
           find_window_loop fragment desktop"
    by (rule find_window_loop_buffer_only)
qed

theorem locator_ignores_beyond_255_witness:
  "distinct (map hwnd [\<lparr>hwnd = 7, title = replicate 255 0x78 @ L ''NAI Launcher'', iconic = False\<rparr>]) \<and>
   find_window_loop (L ''NAI Launcher'')
     [\<lparr>hwnd = 7, title = replicate 255 0x78 @ L ''NAI Launcher'', iconic = False\<rparr>] \<noteq> Some 7"
proof -
  let ?w = "\<lparr>hwnd = 7, title = replicate 255 0x78 @ L ''NAI Launcher'', iconic = False\<rparr>"
  have d: "distinct (map hwnd [?w])" by simp
  have m: "?w \<in> set [?w]" by simp
  have occ: "\<forall>ps ss. title ?w = ps @ L ''NAI Launcher'' @ ss \<longrightarrow> 255 \<le> length ps"
  proof (intro allI impI)
    fix ps ss :: wstring
    assume eq: "title ?w = ps @ L ''NAI Launcher'' @ ss"
    show "255 \<le> length ps"
    proof (rule ccontr)
      assume "\<not> 255 \<le> length ps"
      then have lt: "length ps < 255" by simp
      have "(title ?w) ! length ps = 0x78" using lt by (simp add: nth_append)
      moreover have "(ps @ L ''NAI Launcher'' @ ss) ! length ps = 78"
        by (simp add: L_def)
      ultimately show False using eq by simp
    qed
  qed
  from locator_ignores_beyond_255 [OF d m occ] show ?thesis by simp
qed

section \<open>The wake notifier: results\<close>

text \<open>
  C3, as stated: the third step posts the wake signal to the window's queue and returns
  without waiting. It fails: for a desktop with one matching window the last call is
  \<open>SendMessage\<close>, which returns only after the window procedure of the receiver has
  processed the message, and not the \<open>PostMessage\<close> of the specification.
\<close>

theorem wake_signal_counterexample:
  "FindExistingFlutterWindow [\<lparr>hwnd = 7, title = L ''NAI Launcher'', iconic = False\<rparr>] = Some 7 \<and>
   WakeUpExistingWindow [\<lparr>hwnd = 7, title = L ''NAI Launcher'', iconic = False\<rparr>] =
     [SetForegroundWindow 7, SendMessage 7 kWakeUpMessage 0 0] \<and>
   Wake [\<lparr>hwnd = 7, title = L ''NAI Launcher'', iconic = False\<rparr>] 7 =
     [SetForegroundWindow 7, PostMessage 7 kWakeUpMessage 0 0] \<and>
   last (WakeUpExistingWindow [\<lparr>hwnd = 7, title = L ''NAI Launcher'', iconic = False\<rparr>]) \<noteq>
     PostMessage 7 kWakeUpMessage 0 0"
proof -
  have f: "FindExistingFlutterWindow [\<lparr>hwnd = 7, title = L ''NAI Launcher'', iconic = False\<rparr>] = Some 7"
    by (simp add: FindExistingFlutterWindow_def GetWindowText_def L_def)
  then show ?thesis
    by (simp add: WakeUpExistingWindow_def Wake_def IsIconic_def)
qed

text \<open>
  C3, amended: for every located window handle, the notifier restores the window when it
  is minimised, raises it, and as its last step delivers the wake signal \<open>WM_USER + 1\<close>
  with \<open>SendMessage\<close>, that is synchronously; it never posts it.
\<close>

theorem wake_signal_is_sent:
  assumes "FindExistingFlutterWindow desktop = Some h"
  shows "WakeUpExistingWindow desktop =
           (if IsIconic desktop h then [ShowWindow h SW_RESTORE] else [])
           @ [SetForegroundWindow h, SendMessage h kWakeUpMessage 0 0] \<and>
         last (WakeUpExistingWindow desktop) = SendMessage h kWakeUpMessage 0 0 \<and>
         PostMessage h kWakeUpMessage 0 0 \<notin> set (WakeUpExistingWindow desktop)"
  using assms by (simp add: WakeUpExistingWindow_def)

theorem wake_signal_is_sent_witness:
  "FindExistingFlutterWindow [\<lparr>hwnd = 7, title = L ''NAI Launcher'', iconic = True\<rparr>] = Some 7 \<and>
   WakeUpExistingWindow [\<lparr>hwnd = 7, title = L ''NAI Launcher'', iconic = True\<rparr>] =
     [ShowWindow 7 SW_RESTORE, SetForegroundWindow 7, SendMessage 7 kWakeUpMessage 0 0] \<and>
   last (WakeUpExistingWindow [\<lparr>hwnd = 7, title = L ''NAI Launcher'', iconic = True\<rparr>]) =
     SendMessage 7 kWakeUpMessage 0 0"
proof -
  have f: "FindExistingFlutterWindow [\<lparr>hwnd = 7, title = L ''NAI Launcher'', iconic = True\<rparr>] = Some 7"
    by (simp add: FindExistingFlutterWindow_def GetWindowText_def L_def)
  have i: "IsIconic [\<lparr>hwnd = 7, title = L ''NAI Launcher'', iconic = True\<rparr>] 7"
    by (simp add: IsIconic_def)
  from wake_signal_is_sent [OF f] f i show ?thesis by simp
qed

section \<open>The font enumerator: results\<close>

lemma convert_loop_map_filter:
  "convert_loop conv names result = result @ List.map_filter conv names"
  by (induction names arbitrary: result) (simp_all split: option.splits)

lemma enumerate_sorted_distinct:
  "sorted g \<Longrightarrow> distinct g \<Longrightarrow>
   sorted (EnumFontFamiliesExW EnumFontFamExProc faces g) \<and>
   distinct (EnumFontFamiliesExW EnumFontFamExProc faces g)"
  by (induction faces arbitrary: g)
     (simp_all add: EnumFontFamExProc_def sorted_insort_insert distinct_insort_insert)

lemma set_enumerate:
  "set (EnumFontFamiliesExW EnumFontFamExProc faces g) =
     set g \<union> {n \<in> lfFaceName ` set faces. first_unit n \<noteq> 0x40}"
  by (induction faces arbitrary: g)
     (auto simp: EnumFontFamExProc_def set_insort_insert)

lemma set_converted: "set (List.map_filter conv xs) = {s. \<exists>a\<in>set xs. conv a = Some s}"
  by (induction xs) (auto split: option.splits)

lemma distinct_converted:
  assumes "distinct xs"
    and "\<forall>a\<in>set xs. \<forall>b\<in>set xs. conv a \<noteq> None \<longrightarrow> conv a = conv b \<longrightarrow> a = b"
  shows "distinct (List.map_filter conv xs)"
  using assms
proof (induction xs)
  case Nil
  show ?case by simp
next
  case (Cons x xs)
  have ih: "distinct (List.map_filter conv xs)"
  proof (rule Cons.IH)
    show "distinct xs" using Cons.prems(1) by simp
    show "\<forall>a\<in>set xs. \<forall>b\<in>set xs. conv a \<noteq> None \<longrightarrow> conv a = conv b \<longrightarrow> a = b"
    proof (intro ballI impI)
      fix a b
      assume ab: "a \<in> set xs" "b \<in> set xs" "conv a \<noteq> None" "conv a = conv b"
      then have "a \<in> set (x # xs)" "b \<in> set (x # xs)" by simp_all
      with Cons.prems(2) ab(3,4) show "a = b" by blast
    qed
  qed
  show ?case
  proof (cases "conv x")
    case None
    with ih show ?thesis by simp
  next
    case (Some s)
    have "s \<notin> set (List.map_filter conv xs)"
    proof
      assume "s \<in> set (List.map_filter conv xs)"
      then obtain b where b: "b \<in> set xs" "conv b = Some s"
        unfolding set_converted by blast
      have "x \<in> set (x # xs)" "b \<in> set (x # xs)" using b(1) by simp_all
      moreover have "conv x \<noteq> None" "conv x = conv b" using Some b(2) by simp_all
      ultimately have "x = b" using Cons.prems(2) by blast
      with b(1) Cons.prems(1) show False by simp
    qed
    with ih Some show ?thesis by simp
  qed
qed

lemma unat_wchar_bound: "unat (u :: wchar_t) < 65536"
  using unsigned_less [of u, where ?'a = nat] by simp

lemma decode_2_bytes:
  "0xC0 \<le> b1 \<Longrightarrow> b1 < 0xE0 \<Longrightarrow>
   wide_of_utf8 (b1 # b2 # bs) = of_nat ((b1 - 0xC0) * 64 + (b2 - 0x80)) # wide_of_utf8 bs"
  by simp

lemma decode_3_bytes:
  "0xE0 \<le> b1 \<Longrightarrow> b1 < 0xF0 \<Longrightarrow>
   wide_of_utf8 (b1 # b2 # b3 # bs) =
     of_nat ((b1 - 0xE0) * 4096 + (b2 - 0x80) * 64 + (b3 - 0x80)) # wide_of_utf8 bs"
  by simp

lemma decode_4_bytes:
  "0xF0 \<le> b1 \<Longrightarrow>
   wide_of_utf8 (b1 # b2 # b3 # b4 # bs) =
     of_nat (0xD800 + ((b1 - 0xF0) * 262144 + (b2 - 0x80) * 4096 + (b3 - 0x80) * 64 + (b4 - 0x80)
               - 0x10000) div 0x400)
     # of_nat (0xDC00 + ((b1 - 0xF0) * 262144 + (b2 - 0x80) * 4096 + (b3 - 0x80) * 64
               + (b4 - 0x80) - 0x10000) mod 0x400)
     # wide_of_utf8 bs"
  by (simp add: Let_def)

lemma radix64_2: "(n::nat) div 64 * 64 + n mod 64 = n"
  by simp

lemma radix64_3: "(n::nat) div 4096 * 4096 + n div 64 mod 64 * 64 + n mod 64 = n"
proof -
  define q where "q = n div 64"
  have 1: "q * 64 + n mod 64 = n" by (simp add: q_def)
  have 2: "q div 64 * 64 + q mod 64 = q" by simp
  have 3: "n div 64 div 64 = n div 4096" by (simp add: div_mult2_eq)
  define a b c where "a = q div 64" and "b = q mod 64" and "c = n mod 64"
  have "a * 4096 + b * 64 + c = (a * 64 + b) * 64 + c" by simp
  also have "\<dots> = q * 64 + c" using 2 by (simp add: a_def b_def)
  also have "\<dots> = n" using 1 by (simp add: c_def)
  finally show ?thesis unfolding a_def b_def c_def q_def 3 .
qed

lemma radix64_4:
  "(n::nat) div 262144 * 262144 + n div 4096 mod 64 * 4096 + n div 64 mod 64 * 64 + n mod 64 = n"
proof -
  define q where "q = n div 64"
  have 1: "q * 64 + n mod 64 = n" by (simp add: q_def)
  have 2: "q div 4096 * 4096 + q div 64 mod 64 * 64 + q mod 64 = q" by (rule radix64_3)
  have 3: "n div 64 div 4096 = n div 262144" "n div 64 div 64 = n div 4096"
    by (simp_all add: div_mult2_eq)
  define a b c d where "a = q div 4096" and "b = q div 64 mod 64" and "c = q mod 64"
    and "d = n mod 64"
  have "a * 262144 + b * 4096 + c * 64 + d = (a * 4096 + b * 64 + c) * 64 + d" by simp
  also have "\<dots> = q * 64 + d" using 2 by (simp add: a_def b_def c_def)
  also have "\<dots> = n" using 1 by (simp add: d_def)
  finally show ?thesis unfolding a_def b_def c_def d_def q_def 3 .
qed

lemma wide_of_utf8_single:
  assumes "\<not> is_high_surrogate u" "\<not> is_low_surrogate u"
  shows "wide_of_utf8 (utf8_single u @ bs) = u # wide_of_utf8 bs"
proof -
  define n where "n = unat u"
  have u: "of_nat n = u" by (simp add: n_def)
  have b: "n < 65536" unfolding n_def by (rule unat_wchar_bound)
  consider "n < 0x80" | "0x80 \<le> n" "n < 0x800" | "0x800 \<le> n" by linarith
  then show ?thesis
  proof cases
    case 1
    then have "utf8_single u = [n]" by (simp add: utf8_single_def Let_def n_def)
    with 1 u show ?thesis by simp
  next
    case 2
    define a c where "a = n div 64" and "c = n mod 64"
    have n: "a * 64 + c = n" unfolding a_def c_def by (rule radix64_2)
    have a: "a < 32" unfolding a_def using 2 by (simp add: less_mult_imp_div_less)
    have s: "utf8_single u = [0xC0 + a, 0x80 + c]"
      using 2 by (simp add: utf8_single_def Let_def n_def a_def c_def)
    have "wide_of_utf8 ((0xC0 + a) # (0x80 + c) # bs) =
            of_nat ((0xC0 + a - 0xC0) * 64 + (0x80 + c - 0x80)) # wide_of_utf8 bs"
      using a by (intro decode_2_bytes) simp_all
    also have "(0xC0 + a - 0xC0) * 64 + (0x80 + c - 0x80) = n" using n by simp
    finally show ?thesis using s u by simp
  next
    case 3
    define a b' c where "a = n div 4096" and "b' = n div 64 mod 64" and "c = n mod 64"
    have n: "a * 4096 + b' * 64 + c = n" unfolding a_def b'_def c_def by (rule radix64_3)
    have a: "a < 16" unfolding a_def using b by (simp add: less_mult_imp_div_less)
    have s: "utf8_single u = [0xE0 + a, 0x80 + b', 0x80 + c]"
      using 3 assms by (simp add: utf8_single_def Let_def n_def a_def b'_def c_def)
    have "wide_of_utf8 ((0xE0 + a) # (0x80 + b') # (0x80 + c) # bs) =
            of_nat ((0xE0 + a - 0xE0) * 4096 + (0x80 + b' - 0x80) * 64 + (0x80 + c - 0x80))
            # wide_of_utf8 bs"
      using a by (intro decode_3_bytes) simp_all
    also have "(0xE0 + a - 0xE0) * 4096 + (0x80 + b' - 0x80) * 64 + (0x80 + c - 0x80) = n"
      using n by simp
    finally show ?thesis using s u by simp
  qed
qed

lemma wide_of_utf8_pair:
  assumes "is_high_surrogate hi" "is_low_surrogate lo"
  shows "wide_of_utf8 (utf8_pair hi lo @ bs) = hi # lo # wide_of_utf8 bs"
proof -
  define h l where "h = unat hi - 0xD800" and "l = unat lo - 0xDC00"
  have hi: "0xD800 + h = unat hi" and h: "h < 0x400"
    using assms(1) unfolding h_def is_high_surrogate_def by linarith+
  have lo: "0xDC00 + l = unat lo" and l: "l < 0x400"
    using assms(2) unfolding l_def is_low_surrogate_def by linarith+
  define cp where "cp = 0x10000 + h * 0x400 + l"
  define a b c d where "a = cp div 262144" and "b = cp div 4096 mod 64"
    and "c = cp div 64 mod 64" and "d = cp mod 64"
  have cp: "a * 262144 + b * 4096 + c * 64 + d = cp"
    unfolding a_def b_def c_def d_def by (rule radix64_4)
  have s: "utf8_pair hi lo = [0xF0 + a, 0x80 + b, 0x80 + c, 0x80 + d]"
    by (simp add: utf8_pair_def Let_def a_def b_def c_def d_def cp_def h_def l_def)
  have v: "(0xF0 + a - 0xF0) * 262144 + (0x80 + b - 0x80) * 4096 + (0x80 + c - 0x80) * 64
             + (0x80 + d - 0x80) - 0x10000 = h * 0x400 + l"
    using cp by (simp add: cp_def)
  have dv: "(h * 0x400 + l) div 0x400 = h" using l by simp
  have md: "(h * 0x400 + l) mod 0x400 = l" using l by simp
  have "wide_of_utf8 ((0xF0 + a) # (0x80 + b) # (0x80 + c) # (0x80 + d) # bs) =
          of_nat (0xD800 + ((0xF0 + a - 0xF0) * 262144 + (0x80 + b - 0x80) * 4096
                     + (0x80 + c - 0x80) * 64 + (0x80 + d - 0x80) - 0x10000) div 0x400)
          # of_nat (0xDC00 + ((0xF0 + a - 0xF0) * 262144 + (0x80 + b - 0x80) * 4096
                     + (0x80 + c - 0x80) * 64 + (0x80 + d - 0x80) - 0x10000) mod 0x400)
          # wide_of_utf8 bs"
    by (intro decode_4_bytes) simp
  also have "\<dots> = of_nat (0xD800 + h) # of_nat (0xDC00 + l) # wide_of_utf8 bs"
    unfolding v dv md ..
  also have "\<dots> = hi # lo # wide_of_utf8 bs"
    unfolding hi lo by simp
  finally show ?thesis using s by simp
qed

lemma wide_of_utf8_units:
  "well_formed_utf16 ws \<Longrightarrow> wide_of_utf8 (utf8_units ws) = ws"
proof (induction ws rule: utf8_units.induct)
  case 1
  show ?case by simp
next
  case (2 u)
  then show ?case using wide_of_utf8_single [of u "[]"] by simp
next
  case (3 u v rest)
  show ?case
  proof (cases "is_high_surrogate u")
    case True
    with "3.prems" have lo: "is_low_surrogate v" and wf: "well_formed_utf16 rest" by simp_all
    from True lo wf "3.IH"(1) wide_of_utf8_pair [OF True lo] show ?thesis by simp
  next
    case False
    with "3.prems" have nl: "\<not> is_low_surrogate u" and wf: "well_formed_utf16 (v # rest)"
      by simp_all
    from False nl wf "3.IH"(2) wide_of_utf8_single [OF False nl] show ?thesis by simp
  qed
qed

lemma char_of_bytes_inj:
  assumes "\<forall>b\<in>set xs. b < 256" "\<forall>b\<in>set ys. b < 256" "map char_of xs = map char_of ys"
  shows "xs = (ys :: nat list)"
proof -
  have "map (of_char :: char \<Rightarrow> nat) (map char_of xs) = map of_char (map char_of ys)"
    using assms(3) by simp
  moreover have "map (of_char :: char \<Rightarrow> nat) (map char_of zs) = zs" if "\<forall>b\<in>set zs. b < 256" for zs
    using that by (induction zs) simp_all
  ultimately show ?thesis using assms(1,2) by simp
qed

lemma utf8_single_bytes: "\<forall>b\<in>set (utf8_single u). b < 256"
proof -
  have "unat u < 65536" by (rule unat_wchar_bound)
  then show ?thesis
    unfolding utf8_single_def Let_def by (simp; linarith?)
qed

lemma utf8_pair_bytes:
  assumes "is_high_surrogate hi" "is_low_surrogate lo"
  shows "\<forall>b\<in>set (utf8_pair hi lo). b < 256"
proof -
  define cp where "cp = 0x10000 + (unat hi - 0xD800) * 0x400 + (unat lo - 0xDC00)"
  have "cp < 0x110000"
    using assms unfolding cp_def is_high_surrogate_def is_low_surrogate_def by linarith
  then have "cp div 262144 < 16" by linarith
  moreover have "x mod 64 < 128" for x :: nat
  proof -
    have "x mod 64 < 64" by simp
    then show ?thesis by linarith
  qed
  ultimately show ?thesis
    unfolding utf8_pair_def Let_def cp_def [symmetric] by simp
qed

lemma utf8_units_bytes: "\<forall>b\<in>set (utf8_units ws). b < 256"
proof (induction ws rule: utf8_units.induct)
  case 1
  show ?case by simp
next
  case (2 u)
  show ?case using utf8_single_bytes [of u] by simp
next
  case (3 u v rest)
  show ?case
  proof (cases "is_high_surrogate u \<and> is_low_surrogate v")
    case True
    with 3 utf8_pair_bytes [of u v] show ?thesis by auto
  next
    case False
    with 3 utf8_single_bytes [of u] show ?thesis by auto
  qed
qed

lemma utf8_of_wide_inj:
  assumes "well_formed_utf16 a" "well_formed_utf16 b" "utf8_of_wide a = utf8_of_wide b"
  shows "a = b"
proof -
  have "map char_of (utf8_units a) = map char_of (utf8_units b)"
    using assms(3) by (simp add: utf8_of_wide_def)
  then have "utf8_units a = utf8_units b"
    using utf8_units_bytes [of a] utf8_units_bytes [of b] by (intro char_of_bytes_inj)
  then have "wide_of_utf8 (utf8_units a) = wide_of_utf8 (utf8_units b)" by simp
  with assms(1,2) show ?thesis by (simp add: wide_of_utf8_units)
qed

lemma utf8_single_head:
  "\<exists>b bs. utf8_single u = b # bs \<and> b < 256 \<and> (b = 64 \<longrightarrow> unat u = 64)"
proof -
  have "unat u < 65536" by (rule unat_wchar_bound)
  then show ?thesis
    unfolding utf8_single_def Let_def by (simp; linarith?)
qed

lemma utf8_pair_head:
  "\<exists>b bs. utf8_pair hi lo = b # bs \<and> b \<noteq> 64"
  by (simp add: utf8_pair_def Let_def)

lemma utf8_units_head:
  "\<exists>b bs. utf8_units (u # rest) = b # bs \<and> (b = 64 \<longrightarrow> unat u = 64)"
proof (cases rest)
  case Nil
  with utf8_single_head [of u] show ?thesis by auto
next
  case (Cons v rest')
  show ?thesis
  proof (cases "is_high_surrogate u \<and> is_low_surrogate v")
    case True
    with Cons utf8_pair_head [of u v] show ?thesis by auto
  next
    case False
    with Cons utf8_single_head [of u] show ?thesis by auto
  qed
qed

lemma utf8_of_wide_marker:
  assumes "utf8_of_wide a = Some s" "begins_with_marker s"
  shows "first_unit a = 0x40"
proof (cases a)
  case Nil
  with assms show ?thesis by (simp add: utf8_of_wide_def begins_with_marker_def)
next
  case (Cons u rest)
  from utf8_units_head [of u rest] obtain b bs where
    h: "utf8_units (u # rest) = b # bs" and m: "b = 64 \<longrightarrow> unat u = 64" by blast
  have lt: "b < 256" using utf8_units_bytes [of "u # rest"] h by simp
  from assms(1) Cons h have "s = char_of b # map char_of bs"
    by (simp add: utf8_of_wide_def)
  with assms(2) have "char_of b = CHR ''@''"
    by (simp add: begins_with_marker_def)
  then have "b mod 256 = 64" by (simp add: char_of_eq_iff take_bit_eq_mod)
  with lt have "b = 64" by simp
  with m have "unat u = 64" by simp
  then have "(of_nat (unat u) :: wchar_t) = of_nat 64" by (simp only:)
  then have "u = 64" by simp
  with Cons show ?thesis by (simp add: first_unit_def)
qed

lemma converted_distinct_inj:
  assumes "distinct (List.map_filter conv xs)" "a \<in> set xs" "b \<in> set xs"
    "conv a \<noteq> None" "conv a = conv b"
  shows "a = b"
  using assms
proof (induction xs)
  case Nil
  then show ?case by simp
next
  case (Cons x xs)
  from Cons.prems(4) obtain s where s: "conv a = Some s" by blast
  with Cons.prems(5) have sb: "conv b = Some s" by simp
  have tail: "distinct (List.map_filter conv xs)"
    using Cons.prems(1) by (simp split: option.splits)
  have notin: "s \<notin> set (List.map_filter conv xs)" if "conv x = Some s"
    using Cons.prems(1) that by simp
  show ?case
  proof (cases "a = x")
    case ax: True
    show ?thesis
    proof (cases "b = x")
      case True
      with ax show ?thesis by simp
    next
      case False
      with Cons.prems(3) have "b \<in> set xs" by simp
      with sb have "s \<in> set (List.map_filter conv xs)" unfolding set_converted by blast
      with notin s ax show ?thesis by simp
    qed
  next
    case nax: False
    with Cons.prems(2) have axs: "a \<in> set xs" by simp
    show ?thesis
    proof (cases "b = x")
      case True
      from axs s have "s \<in> set (List.map_filter conv xs)" unfolding set_converted by blast
      with notin sb True show ?thesis by simp
    next
      case False
      with Cons.prems(3) have "b \<in> set xs" by simp
      with Cons.IH tail axs Cons.prems(4,5) show ?thesis by blast
    qed
  qed
qed

text \<open>
  C5, as stated: no two entries of the list \<open>GetSystemFonts\<close> returns are equal. It fails
  when the system reports two faces whose names are different unpaired surrogates: both
  names enter \<open>g_font_names\<close>, which compares wide names, and both are converted to the
  replacement character, so the list holds the same text twice.
\<close>

theorem GetSystemFonts_duplicate_counterexample:
  "fst (GetSystemFonts utf8_of_wide [\<lparr>lfFaceName = [0xD800]\<rparr>, \<lparr>lfFaceName = [0xD801]\<rparr>] []) =
     [[CHR 0xEF, CHR 0xBF, CHR 0xBD], [CHR 0xEF, CHR 0xBF, CHR 0xBD]] \<and>
   \<not> distinct
       (fst (GetSystemFonts utf8_of_wide [\<lparr>lfFaceName = [0xD800]\<rparr>, \<lparr>lfFaceName = [0xD801]\<rparr>] []))"
proof -
  have v: "fst (GetSystemFonts utf8_of_wide
                  [\<lparr>lfFaceName = [0xD800]\<rparr>, \<lparr>lfFaceName = [0xD801]\<rparr>] []) =
             [[CHR 0xEF, CHR 0xBF, CHR 0xBD], [CHR 0xEF, CHR 0xBF, CHR 0xBD]]"
    by (simp add: GetSystemFonts_def EnumFontFamExProc_def first_unit_def insort_insert_key_def
                  utf8_of_wide_def utf8_single_def is_high_surrogate_def
                  is_low_surrogate_def char_of_eq_iff)
  then show ?thesis by simp
qed

text \<open>
  C5, amended: for every list \<open>GetSystemFonts\<close> returns, whatever faces the system reports
  and whatever \<open>g_font_names\<close> held before, no entry begins with \<open>@\<close>, and no two entries
  are equal when every reported name is well-formed UTF-16. The wide names collected in
  \<open>g_font_names\<close> are always pairwise different and unmarked, so that, for any conversion,
  two entries of the list are equal exactly when the conversion gives two different
  collected names the same text.
\<close>

theorem GetSystemFonts_entries:
  "list_all (\<lambda>s. \<not> begins_with_marker s) (fst (GetSystemFonts utf8_of_wide faces g_font_names)) \<and>
   (list_all (\<lambda>f. well_formed_utf16 (lfFaceName f)) faces \<longrightarrow>
      distinct (fst (GetSystemFonts utf8_of_wide faces g_font_names))) \<and>
   distinct (snd (GetSystemFonts WideCharToMultiByte faces g_font_names)) \<and>
   list_all (\<lambda>n. first_unit n \<noteq> 0x40)
     (snd (GetSystemFonts WideCharToMultiByte faces g_font_names)) \<and>
   (distinct (fst (GetSystemFonts WideCharToMultiByte faces g_font_names)) \<longleftrightarrow>
      (\<forall>a\<in>set (snd (GetSystemFonts WideCharToMultiByte faces g_font_names)).
       \<forall>b\<in>set (snd (GetSystemFonts WideCharToMultiByte faces g_font_names)).
          WideCharToMultiByte a \<noteq> None \<longrightarrow> WideCharToMultiByte a = WideCharToMultiByte b
            \<longrightarrow> a = b))"
proof -
  let ?E = "EnumFontFamiliesExW EnumFontFamExProc faces []"
  have res: "fst (GetSystemFonts conv faces g_font_names) = List.map_filter conv ?E" for conv
    by (simp add: GetSystemFonts_def Let_def convert_loop_map_filter)
  have wide: "snd (GetSystemFonts conv faces g_font_names) = ?E" for conv
    by (simp add: GetSystemFonts_def Let_def)
  have dE: "distinct ?E"
    using enumerate_sorted_distinct [of "[]" faces] by simp
  have sE: "set ?E = {n \<in> lfFaceName ` set faces. first_unit n \<noteq> 0x40}"
    by (simp add: set_enumerate)
  have mE: "list_all (\<lambda>n. first_unit n \<noteq> 0x40) ?E"
    by (simp add: list_all_iff sE)
  have unmarked: "list_all (\<lambda>s. \<not> begins_with_marker s) (List.map_filter utf8_of_wide ?E)"
    unfolding list_all_iff
  proof
    fix s
    assume "s \<in> set (List.map_filter utf8_of_wide ?E)"
    then obtain a where a: "a \<in> set ?E" "utf8_of_wide a = Some s"
      unfolding set_converted by blast
    from a(1) have "first_unit a \<noteq> 0x40" unfolding sE by simp
    with utf8_of_wide_marker [OF a(2)] show "\<not> begins_with_marker s" by blast
  qed
  have unique: "distinct (List.map_filter utf8_of_wide ?E)"
    if wf: "list_all (\<lambda>f. well_formed_utf16 (lfFaceName f)) faces"
  proof (rule distinct_converted [OF dE], intro ballI impI)
    fix a b
    assume ab: "a \<in> set ?E" "b \<in> set ?E" "utf8_of_wide a \<noteq> None"
      "utf8_of_wide a = utf8_of_wide b"
    from ab(1,2) have "a \<in> lfFaceName ` set faces" "b \<in> lfFaceName ` set faces"
      unfolding sE by simp_all
    with wf have "well_formed_utf16 a" "well_formed_utf16 b"
      by (auto simp: list_all_iff)
    then show "a = b" using ab(4) by (rule utf8_of_wide_inj)
  qed
  have exact: "distinct (List.map_filter WideCharToMultiByte ?E) \<longleftrightarrow>
      (\<forall>a\<in>set ?E. \<forall>b\<in>set ?E.
          WideCharToMultiByte a \<noteq> None \<longrightarrow> WideCharToMultiByte a = WideCharToMultiByte b
            \<longrightarrow> a = b)"
  proof
    assume d: "distinct (List.map_filter WideCharToMultiByte ?E)"
    show "\<forall>a\<in>set ?E. \<forall>b\<in>set ?E.
          WideCharToMultiByte a \<noteq> None \<longrightarrow> WideCharToMultiByte a = WideCharToMultiByte b
            \<longrightarrow> a = b"
    proof (intro ballI impI)
      fix a b
      assume "a \<in> set ?E" "b \<in> set ?E" "WideCharToMultiByte a \<noteq> None"
        "WideCharToMultiByte a = WideCharToMultiByte b"
      with d show "a = b" by (rule converted_distinct_inj)
    qed
  next
    assume "\<forall>a\<in>set ?E. \<forall>b\<in>set ?E.
          WideCharToMultiByte a \<noteq> None \<longrightarrow> WideCharToMultiByte a = WideCharToMultiByte b
            \<longrightarrow> a = b"
    with dE show "distinct (List.map_filter WideCharToMultiByte ?E)"
      by (rule distinct_converted)
  qed
  from unmarked unique dE mE exact show ?thesis
    unfolding res wide by blast
qed

theorem GetSystemFonts_entries_witness:
  "fst (GetSystemFonts utf8_of_wide
          [\<lparr>lfFaceName = L ''Consolas''\<rparr>, \<lparr>lfFaceName = L ''@Arial''\<rparr>,
           \<lparr>lfFaceName = L ''Arial''\<rparr>, \<lparr>lfFaceName = L ''Arial''\<rparr>] []) =
     [''Arial'', ''Consolas''] \<and>
   distinct (fst (GetSystemFonts utf8_of_wide
          [\<lparr>lfFaceName = L ''Consolas''\<rparr>, \<lparr>lfFaceName = L ''@Arial''\<rparr>,
           \<lparr>lfFaceName = L ''Arial''\<rparr>, \<lparr>lfFaceName = L ''Arial''\<rparr>] [])) \<and>
   snd (GetSystemFonts utf8_of_wide
          [\<lparr>lfFaceName = L ''Consolas''\<rparr>, \<lparr>lfFaceName = L ''@Arial''\<rparr>,
           \<lparr>lfFaceName = L ''Arial''\<rparr>, \<lparr>lfFaceName = L ''Arial''\<rparr>] []) =
     [L ''Arial'', L ''Consolas'']"
proof -
  let ?faces = "[\<lparr>lfFaceName = L ''Consolas''\<rparr>, \<lparr>lfFaceName = L ''@Arial''\<rparr>,
                 \<lparr>lfFaceName = L ''Arial''\<rparr>, \<lparr>lfFaceName = L ''Arial''\<rparr>]"
  have wf: "list_all (\<lambda>f. well_formed_utf16 (lfFaceName f)) ?faces"
    by (simp add: L_def is_high_surrogate_def is_low_surrogate_def)
  have v: "fst (GetSystemFonts utf8_of_wide ?faces []) = [''Arial'', ''Consolas'']"
    by (simp add: GetSystemFonts_def EnumFontFamExProc_def first_unit_def L_def
                  insort_insert_key_def utf8_of_wide_def utf8_single_def
                  is_high_surrogate_def is_low_surrogate_def char_of_eq_iff)
  have w: "snd (GetSystemFonts utf8_of_wide ?faces []) = [L ''Arial'', L ''Consolas'']"
    by (simp add: GetSystemFonts_def EnumFontFamExProc_def first_unit_def L_def
                  insort_insert_key_def)
  from GetSystemFonts_entries [of ?faces "[]" utf8_of_wide] wf v w show ?thesis by simp
qed

lemma enumerate_depends_on_set:
  assumes "set faces1 = set faces2"
  shows "EnumFontFamiliesExW EnumFontFamExProc faces1 [] =
         EnumFontFamiliesExW EnumFontFamExProc faces2 []"
proof (rule sorted_distinct_set_unique)
  show "sorted (EnumFontFamiliesExW EnumFontFamExProc faces1 [])"
    using enumerate_sorted_distinct [of "[]" faces1] by simp
  show "distinct (EnumFontFamiliesExW EnumFontFamExProc faces1 [])"
    using enumerate_sorted_distinct [of "[]" faces1] by simp
  show "sorted (EnumFontFamiliesExW EnumFontFamExProc faces2 [])"
    using enumerate_sorted_distinct [of "[]" faces2] by simp
  show "distinct (EnumFontFamiliesExW EnumFontFamExProc faces2 [])"
    using enumerate_sorted_distinct [of "[]" faces2] by simp
  show "set (EnumFontFamiliesExW EnumFontFamExProc faces1 []) =
        set (EnumFontFamiliesExW EnumFontFamExProc faces2 [])"
    using assms by (simp add: set_enumerate)
qed

text \<open>
  C9: when the system reports the same set of faces to both calls, two calls of
  \<open>GetSystemFonts\<close> return the same list, in the same order, whatever \<open>g_font_names\<close> held
  before either call; in particular the second of two successive calls, which starts from
  the set the first one left behind, returns what the first returned.
\<close>

theorem GetSystemFonts_repeatable:
  assumes "set faces1 = set faces2"
  shows "fst (GetSystemFonts WideCharToMultiByte faces2
                (snd (GetSystemFonts WideCharToMultiByte faces1 g_font_names))) =
         fst (GetSystemFonts WideCharToMultiByte faces1 g_font_names) \<and>
         fst (GetSystemFonts WideCharToMultiByte faces2 g2) =
         fst (GetSystemFonts WideCharToMultiByte faces1 g1)"
  using enumerate_depends_on_set [OF assms]
  by (simp add: GetSystemFonts_def Let_def)

theorem GetSystemFonts_repeatable_witness:
  "set [\<lparr>lfFaceName = L ''Consolas''\<rparr>, \<lparr>lfFaceName = L ''Arial''\<rparr>, \<lparr>lfFaceName = L ''Consolas''\<rparr>] =
   set [\<lparr>lfFaceName = L ''Arial''\<rparr>, \<lparr>lfFaceName = L ''Consolas''\<rparr>] \<and>
   fst (GetSystemFonts utf8_of_ascii
          [\<lparr>lfFaceName = L ''Consolas''\<rparr>, \<lparr>lfFaceName = L ''Arial''\<rparr>, \<lparr>lfFaceName = L ''Consolas''\<rparr>]
          [L ''Stale'']) = [''Arial'', ''Consolas''] \<and>
   fst (GetSystemFonts utf8_of_ascii
          [\<lparr>lfFaceName = L ''Arial''\<rparr>, \<lparr>lfFaceName = L ''Consolas''\<rparr>]
          (snd (GetSystemFonts utf8_of_ascii
                  [\<lparr>lfFaceName = L ''Consolas''\<rparr>, \<lparr>lfFaceName = L ''Arial''\<rparr>,
                   \<lparr>lfFaceName = L ''Consolas''\<rparr>]
                  [L ''Stale'']))) = [''Arial'', ''Consolas'']"
proof -
  have e: "set [\<lparr>lfFaceName = L ''Consolas''\<rparr>, \<lparr>lfFaceName = L ''Arial''\<rparr>, \<lparr>lfFaceName = L ''Consolas''\<rparr>] =
           set [\<lparr>lfFaceName = L ''Arial''\<rparr>, \<lparr>lfFaceName = L ''Consolas''\<rparr>]"
    by auto
  have v: "fst (GetSystemFonts utf8_of_ascii
          [\<lparr>lfFaceName = L ''Consolas''\<rparr>, \<lparr>lfFaceName = L ''Arial''\<rparr>, \<lparr>lfFaceName = L ''Consolas''\<rparr>]
          [L ''Stale'']) = [''Arial'', ''Consolas'']"
    by (simp add: GetSystemFonts_def EnumFontFamExProc_def first_unit_def L_def
                  insort_insert_key_def utf8_of_ascii_def char_of_eq_iff)
  from GetSystemFonts_repeatable [OF e, of utf8_of_ascii "[L ''Stale'']"] e v
  show ?thesis by simp
qed

section \<open>The capability bridge: results\<close>

text \<open>
  C4, as stated: for every message with a reserved code the switch acts, even when the
  hook of the embedded runtime reports the message handled. It fails in two ways. With a
  hook that handles every message, the handler returns the hook's result and takes no
  action, for the wake signal and for the font change alike. With no controller
  (\<open>flutter_controller_\<close> is null after \<open>OnDestroy\<close>) the hook is not asked, and the switch
  dereferences the null controller instead of acting.
\<close>

theorem bridge_switch_counterexample:
  "MessageHandler (\<lambda>h m w l. 0) (Some \<lparr>HandleTopLevelWindowProc = (\<lambda>h m w l. Some 0)\<rparr>)
      7 kWakeUpMessage 0 0 = Inr ([], 0) \<and>
   MessageHandler (\<lambda>h m w l. 0) (Some \<lparr>HandleTopLevelWindowProc = (\<lambda>h m w l. Some 0)\<rparr>)
      7 WM_FONTCHANGE 0 0 = Inr ([], 0) \<and>
   MessageHandler (\<lambda>h m w l. 0) None 7 kWakeUpMessage 0 0 = Inl NullDereference \<and>
   MessageHandler (\<lambda>h m w l. 0) None 7 WM_FONTCHANGE 0 0 = Inl NullDereference \<and>
   switch_action kWakeUpMessage = [InvokeMethod ''com.nailauncher/window_control'' ''wakeUp''] \<and>
   switch_action WM_FONTCHANGE = [ReloadSystemFonts]"
  by (simp add: MessageHandler_def switch_action_def kWakeUpMessage_def WM_USER_def WM_FONTCHANGE_def)

text \<open>
  C4, amended: for every message whose code is the wake signal or the font change and
  that arrives while the window has its controller (\<open>flutter_controller_\<close> is not null), the
  switch takes its action, and the base handler gives the result, exactly when the hook
  of the embedded runtime returns no result; when the hook returns a result, that result
  is returned and the switch is skipped. Nothing is stated for a message that arrives
  when the controller is gone.
\<close>

theorem bridge_switch_after_hook:
  assumes "message = WM_FONTCHANGE \<or> message = kWakeUpMessage"
  shows "MessageHandler base (Some c) h message wparam lparam =
           (case HandleTopLevelWindowProc c h message wparam lparam of
              Some result \<Rightarrow> Inr ([], result)
            | None \<Rightarrow> Inr (switch_action message, base h message wparam lparam))"
  using assms
  by (auto simp: MessageHandler_def switch_action_def split: option.splits)

theorem bridge_switch_after_hook_witness:
  "MessageHandler (\<lambda>h m w l. 5) (Some \<lparr>HandleTopLevelWindowProc = (\<lambda>h m w l. None)\<rparr>)
      7 kWakeUpMessage 0 0 =
     Inr ([InvokeMethod ''com.nailauncher/window_control'' ''wakeUp''], 5) \<and>
   MessageHandler (\<lambda>h m w l. 5) (Some \<lparr>HandleTopLevelWindowProc = (\<lambda>h m w l. Some 3)\<rparr>)
      7 kWakeUpMessage 0 0 = Inr ([], 3)"
proof -
  have r: "kWakeUpMessage = WM_FONTCHANGE \<or> kWakeUpMessage = kWakeUpMessage" by simp
  have s: "switch_action kWakeUpMessage = [InvokeMethod ''com.nailauncher/window_control'' ''wakeUp'']"
    by (simp add: switch_action_def kWakeUpMessage_def WM_USER_def WM_FONTCHANGE_def)
  from bridge_switch_after_hook [OF r, of "\<lambda>h m w l. 5" "\<lparr>HandleTopLevelWindowProc = (\<lambda>h m w l. None)\<rparr>" 7 0 0]
       bridge_switch_after_hook [OF r, of "\<lambda>h m w l. 5" "\<lparr>HandleTopLevelWindowProc = (\<lambda>h m w l. Some 3)\<rparr>" 7 0 0]
       s
  show ?thesis by simp
qed

text \<open>
  C7: every call on \<open>system_fonts\<close> whose method name is not \<open>getSystemFonts\<close> is
  completed with the not-implemented outcome, never with a success payload and never
  with an error, and leaves \<open>g_font_names\<close> as it was.
\<close>

theorem unknown_method_not_implemented:
  assumes "method_name \<noteq> ''getSystemFonts''"
  shows "system_fonts_handler WideCharToMultiByte faces method_name g_font_names =
           (NotImplemented, g_font_names) \<and>
         (\<forall>v. fst (system_fonts_handler WideCharToMultiByte faces method_name g_font_names)
                 \<noteq> Success v) \<and>
         (\<forall>code msg. fst (system_fonts_handler WideCharToMultiByte faces method_name g_font_names)
                 \<noteq> Error code msg)"
  using assms by (simp add: system_fonts_handler_def)

theorem unknown_method_not_implemented_witness:
  "''unknownMethod'' \<noteq> ''getSystemFonts'' \<and>
   system_fonts_handler utf8_of_ascii [\<lparr>lfFaceName = L ''Arial''\<rparr>] ''unknownMethod'' [] =
     (NotImplemented, [])"
proof -
  have n: "''unknownMethod'' \<noteq> ''getSystemFonts''" by simp
  from unknown_method_not_implemented [OF n, of utf8_of_ascii "[\<lparr>lfFaceName = L ''Arial''\<rparr>]" "[]"] n
  show ?thesis by simp
qed

section \<open>Program entry: results\<close>

lemma message_loop_returns:
  "message_loop ms \<noteq> None \<longleftrightarrow> (\<exists>msg. (0, msg) \<in> set ms)"
  by (induction ms rule: message_loop.induct) auto

lemma message_loop_calls:
  "message_loop ms = Some calls \<Longrightarrow>
   GetMessage \<in> set calls \<and> \<not> list_ex is_Window_Create calls \<and> \<not> list_ex is_CloseHandle calls"
  by (induction ms arbitrary: calls rule: message_loop.induct) (auto split: if_splits)

text \<open>
  C2, as stated: when \<open>CreateMutex\<close> returns null and the last error is not
  \<open>ERROR_ALREADY_EXISTS\<close>, the program aborts startup with a non-zero exit code, creating no
  window and running no message loop. It fails: with a null handle and last error 8
  (\<open>ERROR_NOT_ENOUGH_MEMORY\<close>) the run creates the window, enters the message loop and
  returns 0.
\<close>

theorem mutex_failure_counterexample:
  "CreateMutex_result
     \<lparr>AttachConsole_result = True, IsDebuggerPresent_result = False,
      CreateMutex_result = None, GetLastError_result = 8, top_level_windows = [],
      Create_result = True, GetMessage_results = [(0, 0x12)]\<rparr> = None \<and>
   GetLastError_result
     \<lparr>AttachConsole_result = True, IsDebuggerPresent_result = False,
      CreateMutex_result = None, GetLastError_result = 8, top_level_windows = [],
      Create_result = True, GetMessage_results = [(0, 0x12)]\<rparr> \<noteq> ERROR_ALREADY_EXISTS \<and>
   wWinMain
     \<lparr>AttachConsole_result = True, IsDebuggerPresent_result = False,
      CreateMutex_result = None, GetLastError_result = 8, top_level_windows = [],
      Create_result = True, GetMessage_results = [(0, 0x12)]\<rparr> =
     Some (0, [AttachConsole, CreateMutex True kSingleInstanceMutexName, CoInitializeEx,
               Window_Create (L ''NAI Launcher'') (10, 10) (1280, 720), SetQuitOnClose True,
               GetMessage, CoUninitialize]) \<and>
   \<not> aborts_startup (wWinMain
     \<lparr>AttachConsole_result = True, IsDebuggerPresent_result = False,
      CreateMutex_result = None, GetLastError_result = 8, top_level_windows = [],
      Create_result = True, GetMessage_results = [(0, 0x12)]\<rparr>)"
  by (simp add: wWinMain_def ERROR_ALREADY_EXISTS_def EXIT_SUCCESS_def close_mutex_def
                aborts_startup_def)

text \<open>
  C2, amended: when \<open>CreateMutex\<close> returns null and the last error is not
  \<open>ERROR_ALREADY_EXISTS\<close>, the program goes on as the first instance. It always attempts to
  create the window and never calls \<open>CloseHandle\<close>; it returns \<open>EXIT_FAILURE\<close> exactly when the
  window creation fails, and otherwise runs the message loop and returns \<open>EXIT_SUCCESS\<close>; it
  returns at all exactly when the window creation fails or \<open>GetMessage\<close> eventually
  returns 0.
\<close>

theorem mutex_failure_continues:
  assumes "CreateMutex_result env = None"
    and "GetLastError_result env \<noteq> ERROR_ALREADY_EXISTS"
  shows "(wWinMain env \<noteq> None \<longleftrightarrow>
            \<not> Create_result env \<or> (\<exists>msg. (0, msg) \<in> set (GetMessage_results env))) \<and>
         (\<forall>code calls. wWinMain env = Some (code, calls) \<longrightarrow>
            list_ex is_Window_Create calls \<and> \<not> list_ex is_CloseHandle calls \<and>
            (code = EXIT_FAILURE \<longleftrightarrow> \<not> Create_result env) \<and>
            (code = EXIT_SUCCESS \<longleftrightarrow> Create_result env) \<and>
            (GetMessage \<in> set calls \<longleftrightarrow> Create_result env))"
proof (cases "Create_result env")
  case False
  with assms show ?thesis
    by (auto simp: wWinMain_def Let_def EXIT_FAILURE_def EXIT_SUCCESS_def)
next
  case True
  have ret: "wWinMain env \<noteq> None \<longleftrightarrow> (\<exists>msg. (0, msg) \<in> set (GetMessage_results env))"
    using assms True message_loop_returns [of "GetMessage_results env"]
    by (simp add: wWinMain_def Let_def)
  have calls: "list_ex is_Window_Create calls \<and> \<not> list_ex is_CloseHandle calls \<and>
            code = EXIT_SUCCESS \<and> code \<noteq> EXIT_FAILURE \<and> GetMessage \<in> set calls"
    if "wWinMain env = Some (code, calls)" for code calls
  proof -
    from that assms True obtain loop where
      l: "message_loop (GetMessage_results env) = Some loop" and
      c: "code = EXIT_SUCCESS" and
      cs: "calls = (AttachConsole #
              (if \<not> AttachConsole_result env \<and> IsDebuggerPresent_result env
               then [CreateAndAttachConsole] else []))
            @ [CreateMutex True kSingleInstanceMutexName]
            @ [CoInitializeEx, Window_Create (L ''NAI Launcher'') (10, 10) (1280, 720),
               SetQuitOnClose True]
            @ loop @ [CoUninitialize]"
      by (auto simp: wWinMain_def Let_def close_mutex_def)
    from message_loop_calls [OF l] c cs show ?thesis
      by (simp add: EXIT_SUCCESS_def EXIT_FAILURE_def)
  qed
  from ret calls True show ?thesis by blast
qed

theorem mutex_failure_continues_witness:
  "wWinMain
     \<lparr>AttachConsole_result = False, IsDebuggerPresent_result = True,
      CreateMutex_result = None, GetLastError_result = 8, top_level_windows = [],
      Create_result = True, GetMessage_results = [(1, 0x0401), (0, 0x12)]\<rparr> =
     Some (EXIT_SUCCESS,
           [AttachConsole, CreateAndAttachConsole, CreateMutex True kSingleInstanceMutexName,
            CoInitializeEx, Window_Create (L ''NAI Launcher'') (10, 10) (1280, 720),
            SetQuitOnClose True, GetMessage, TranslateMessage 0x0401, DispatchMessage 0x0401,
            GetMessage, CoUninitialize]) \<and>
   wWinMain
     \<lparr>AttachConsole_result = False, IsDebuggerPresent_result = True,
      CreateMutex_result = None, GetLastError_result = 8, top_level_windows = [],
      Create_result = True, GetMessage_results = [(1, 0x0401), (0, 0x12)]\<rparr> \<noteq> None"
proof -
  let ?env = "\<lparr>AttachConsole_result = False, IsDebuggerPresent_result = True,
      CreateMutex_result = None, GetLastError_result = 8, top_level_windows = [],
      Create_result = True, GetMessage_results = [(1, 0x0401), (0, 0x12)]\<rparr>"
  have a: "CreateMutex_result ?env = None" by simp
  have b: "GetLastError_result ?env \<noteq> ERROR_ALREADY_EXISTS"
    by (simp add: ERROR_ALREADY_EXISTS_def)
  have v: "wWinMain ?env = Some (EXIT_SUCCESS,
           [AttachConsole, CreateAndAttachConsole, CreateMutex True kSingleInstanceMutexName,
            CoInitializeEx, Window_Create (L ''NAI Launcher'') (10, 10) (1280, 720),
            SetQuitOnClose True, GetMessage, TranslateMessage 0x0401, DispatchMessage 0x0401,
            GetMessage, CoUninitialize])"
    by (simp add: wWinMain_def ERROR_ALREADY_EXISTS_def close_mutex_def)
  from mutex_failure_continues [OF a b] v show ?thesis by simp
qed

text \<open>
  On the wake-and-exit path and on normal shutdown a handle that was obtained is closed.
\<close>

lemma mutex_released_on_other_exits:
  assumes "CreateMutex_result env = Some h"
    and "wWinMain env = Some (code, calls)"
    and "GetLastError_result env = ERROR_ALREADY_EXISTS \<or> Create_result env"
  shows "CloseHandle h \<in> set calls"
  using assms by (auto simp: wWinMain_def Let_def close_mutex_def split: if_splits)

text \<open>
  C8: on every exit path of a run that obtained the mutex handle, \<open>CloseHandle\<close> is reached
  before the return. The window-creation-failure exit breaks it: with handle 100, a fresh
  mutex and a failing \<open>window.Create\<close>, the run returns \<open>EXIT_FAILURE\<close> and its calls end
  with the window creation; \<open>CloseHandle 100\<close> is not among them.
\<close>

theorem mutex_not_released_on_create_failure:
  "wWinMain
     \<lparr>AttachConsole_result = True, IsDebuggerPresent_result = False,
      CreateMutex_result = Some 100, GetLastError_result = 0, top_level_windows = [],
      Create_result = False, GetMessage_results = []\<rparr> =
     Some (EXIT_FAILURE,
           [AttachConsole, CreateMutex True kSingleInstanceMutexName, CoInitializeEx,
            Window_Create (L ''NAI Launcher'') (10, 10) (1280, 720)]) \<and>
   CloseHandle 100 \<notin> set
           [AttachConsole, CreateMutex True kSingleInstanceMutexName, CoInitializeEx,
            Window_Create (L ''NAI Launcher'') (10, 10) (1280, 720)]"
  by (simp add: wWinMain_def ERROR_ALREADY_EXISTS_def)

end
